theory Spec2Isabelle
  imports Main "HOL-Library.Sublist"
begin

section \<open>Python strings\<close>

text \<open>
  A Python \<open>str\<close> is a sequence of Unicode code points, so it is modelled as a list of
  natural numbers. \<open>py\<close> turns a literal into such a list.
\<close>

type_synonym pystr = "nat list"

definition py :: "string \<Rightarrow> pystr" where
  "py s = map of_char s"

text \<open>
  \<open>str.isspace\<close> on one code point; it is also the class \<open>\s\<close> of \<open>re\<close> on a
  \<open>str\<close> pattern and the set \<open>str.strip()\<close> removes:
  U+0009..U+000D, U+001C..U+0020, U+0085, U+00A0, U+1680, U+2000..U+200A, U+2028,
  U+2029, U+202F, U+205F, U+3000.
\<close>

definition isspace :: "nat \<Rightarrow> bool" where
  "isspace c \<longleftrightarrow>
     (9 \<le> c \<and> c \<le> 13) \<or> (28 \<le> c \<and> c \<le> 32) \<or> c = 133 \<or> c = 160 \<or> c = 5760 \<or>
     (8192 \<le> c \<and> c \<le> 8202) \<or> c = 8232 \<or> c = 8233 \<or> c = 8239 \<or> c = 8287 \<or>
     c = 12288"

text \<open>
  The line boundaries of \<open>str.splitlines\<close>: LF, VT, FF, CR, FS, GS, RS, NEL, LS, PS
  (and CR LF, which counts once).
\<close>

definition is_linebreak :: "nat \<Rightarrow> bool" where
  "is_linebreak c \<longleftrightarrow>
     (10 \<le> c \<and> c \<le> 13) \<or> (28 \<le> c \<and> c \<le> 30) \<or> c = 133 \<or> c = 8232 \<or> c = 8233"

definition strip :: "pystr \<Rightarrow> pystr" where
  "strip s = rev (dropWhile isspace (rev (dropWhile isspace s)))"

text \<open>
  \<open>s.splitlines()\<close>: the boundaries are dropped, the empty string has no line, and a
  final boundary does not open a last empty line.
\<close>

fun splitlines :: "pystr \<Rightarrow> pystr list" where
  "splitlines [] = []"
| "splitlines (c # cs) =
     (if c = 13 then
        (case cs of
           [] \<Rightarrow> [[]]
         | d # ds \<Rightarrow> if d = 10 then [] # splitlines ds else [] # splitlines (d # ds))
      else if is_linebreak c then [] # splitlines cs
      else
        (case splitlines cs of
           [] \<Rightarrow> [[c]]
         | l # ls \<Rightarrow> (c # l) # ls))"

text \<open>\<open>sep.join(xs)\<close>\<close>

fun join :: "pystr \<Rightarrow> pystr list \<Rightarrow> pystr" where
  "join sep [] = []"
| "join sep [x] = x"
| "join sep (x # y # ys) = x @ sep @ join sep (y # ys)"

text \<open>
  \<open>s.replace(old, new)\<close> for a non-empty \<open>old\<close> (the source calls it with the
  literals \<open>"\t"\<close>, \<open>"\n"\<close> and \<open>"\n\n"\<close> only): the occurrences are replaced from
  left to right, without overlap.
\<close>

function replace :: "pystr \<Rightarrow> pystr \<Rightarrow> pystr \<Rightarrow> pystr" where
  "replace old new [] = []"
| "replace old new (c # cs) =
     (if old \<noteq> [] \<and> prefix old (c # cs)
      then new @ replace old new (drop (length old) (c # cs))
      else c # replace old new cs)"
  by pat_completeness auto
termination
  by (relation "measure (\<lambda>(old, new, s). length s)") auto

section \<open>The regular expressions of the source\<close>

text \<open>
  \<open>re.sub(r"//.*?$", "", s, flags=re.MULTILINE)\<close>: from each \<open>//\<close> (the leftmost
  first) up to, and without, the next LF or up to the end of the text; \<open>.\<close> matches
  every code point but LF.
\<close>

function sub_line_comments :: "pystr \<Rightarrow> pystr" where
  "sub_line_comments [] = []"
| "sub_line_comments [c] = [c]"
| "sub_line_comments (c # d # cs) =
     (if c = 47 \<and> d = 47 then sub_line_comments (dropWhile (\<lambda>x. x \<noteq> 10) cs)
      else c # sub_line_comments (d # cs))"
  by pat_completeness auto
termination
  by (relation "measure length") (auto simp: less_Suc_eq_le le_SucI length_dropWhile_le)

text \<open>The text after the first \<open>*/\<close>, if there is one.\<close>

fun after_close :: "pystr \<Rightarrow> pystr option" where
  "after_close [] = None"
| "after_close [c] = None"
| "after_close (c # d # cs) =
     (if c = 42 \<and> d = 47 then Some cs else after_close (d # cs))"

lemma after_close_length: "after_close s = Some r \<Longrightarrow> length r < length s"
  by (induction s arbitrary: r rule: after_close.induct) (auto split: if_splits)

text \<open>
  \<open>re.sub(r"/\*.*?\*/", "", s, flags=re.DOTALL)\<close>: from each \<open>/*\<close> (the leftmost
  first) to the nearest \<open>*/\<close> that starts after it; a \<open>/*\<close> with no \<open>*/\<close> after it
  stays.
\<close>

function sub_block_comments :: "pystr \<Rightarrow> pystr" where
  "sub_block_comments [] = []"
| "sub_block_comments [c] = [c]"
| "sub_block_comments (c # d # cs) =
     (if c = 47 \<and> d = 42 then
        (case after_close cs of
           None \<Rightarrow> c # sub_block_comments (d # cs)
         | Some r \<Rightarrow> sub_block_comments r)
      else c # sub_block_comments (d # cs))"
  by pat_completeness auto
termination
  by (relation "measure length") (auto dest: after_close_length)

text \<open>\<open>re.sub(r"\s+", " ", s)\<close>: every maximal run of white space becomes one space.\<close>

function sub_space_runs :: "pystr \<Rightarrow> pystr" where
  "sub_space_runs [] = []"
| "sub_space_runs (c # cs) =
     (if isspace c then 32 # sub_space_runs (dropWhile isspace cs)
      else c # sub_space_runs cs)"
  by pat_completeness auto
termination
  by (relation "measure length") (auto simp: less_Suc_eq_le length_dropWhile_le)

text \<open>
  \<open>re.sub(r"\n\s*\n", "\n", s)\<close>: at an LF, the greedy \<open>\s*\<close> takes the whole run of
  white space that follows and gives back until an LF ends the match, so the match
  reaches the last LF of that run; with no LF in the run there is no match here.
\<close>

definition last_lf_end :: "pystr \<Rightarrow> nat" where
  "last_lf_end w = length w - length (takeWhile (\<lambda>x. x \<noteq> 10) (rev w))"

function sub_blank_runs :: "pystr \<Rightarrow> pystr" where
  "sub_blank_runs [] = []"
| "sub_blank_runs (c # cs) =
     (if c = 10 \<and> 10 \<in> set (takeWhile isspace cs)
      then 10 # sub_blank_runs (drop (last_lf_end (takeWhile isspace cs)) cs)
      else c # sub_blank_runs cs)"
  by pat_completeness auto
termination
  by (relation "measure length") auto

text \<open>\<open>re.sub(r"(\})", r"\1\n", s)\<close>: an LF after every closing brace.\<close>

definition sub_brace_newline :: "pystr \<Rightarrow> pystr" where
  "sub_brace_newline s = concat (map (\<lambda>c. if c = 125 then [125, 10] else [c]) s)"

text \<open>
  \<open>"\n".join([line.strip() for line in s.splitlines() if line.strip()])\<close>
\<close>

definition strip_lines :: "pystr \<Rightarrow> pystr" where
  "strip_lines s = join [10] (map strip (filter (\<lambda>line. strip line \<noteq> []) (splitlines s)))"

section \<open>Configuration and watermark\<close>

text \<open>
  \<open>DEFAULT_CONFIG\<close> is a global dictionary with a fixed set of keys; the cleaning
  functions only read it, so it is passed to them as a record.
\<close>

record config =
  backup_directory :: pystr
  clean_format :: pystr
  remove_comments :: bool
  remove_empty_lines :: bool
  normalize_indentation :: bool
  js_minify :: bool
  optimize_css :: bool
  dry_run :: bool

definition DEFAULT_CONFIG :: config where
  "DEFAULT_CONFIG =
     \<lparr>backup_directory = py ''backup'', clean_format = py ''compact'',
      remove_comments = True, remove_empty_lines = True, normalize_indentation = True,
      js_minify = False, optimize_css = False, dry_run = False\<rparr>"

definition LOG_FILE_PATH :: pystr where
  "LOG_FILE_PATH = py ''cleanup_log.txt''"

definition WATERMARK :: pystr where
  "WATERMARK = py ''\<newline>/* \<newline>    Cleaned by TheZ Cleaning Tool \<newline>    Watermark: 'This file was processed by TheZ's Cleaning Tool'\<newline>    For support and feedback, visit: https://discord.gg/zsGTqgnsmK \<newline>    Version: 1.1\<newline>*/\<newline>''"

definition add_watermark :: "pystr \<Rightarrow> pystr" where
  "add_watermark content = WATERMARK @ content"

section \<open>The script pipeline\<close>

text \<open>The value of \<open>js_code\<close> in \<open>clean_js\<close> after each of its steps.\<close>

definition js_decommented :: "config \<Rightarrow> pystr \<Rightarrow> pystr" where
  "js_decommented cfg js_code =
     (if remove_comments cfg then sub_block_comments (sub_line_comments js_code)
      else js_code)"

definition js_unblanked :: "config \<Rightarrow> pystr \<Rightarrow> pystr" where
  "js_unblanked cfg js_code = strip_lines (js_decommented cfg js_code)"

definition js_minified :: "config \<Rightarrow> pystr \<Rightarrow> pystr" where
  "js_minified cfg js_code =
     (if js_minify cfg then replace [10] [] (sub_space_runs (js_unblanked cfg js_code))
      else js_unblanked cfg js_code)"

definition js_formatted :: "config \<Rightarrow> pystr \<Rightarrow> pystr" where
  "js_formatted cfg js_code =
     (if clean_format cfg = py ''compact'' then sub_blank_runs (js_minified cfg js_code)
      else if clean_format cfg = py ''readable''
      then sub_brace_newline (js_minified cfg js_code)
      else js_minified cfg js_code)"

definition clean_js_text :: "config \<Rightarrow> pystr \<Rightarrow> pystr" where
  "clean_js_text cfg js_code = add_watermark (js_formatted cfg js_code)"

section \<open>The stylesheet pipeline\<close>

text \<open>The value of \<open>css_code\<close> in \<open>clean_css\<close> after each of its steps.\<close>

definition css_decommented :: "config \<Rightarrow> pystr \<Rightarrow> pystr" where
  "css_decommented cfg css_code =
     (if remove_comments cfg then sub_block_comments css_code else css_code)"

definition css_optimized :: "config \<Rightarrow> pystr \<Rightarrow> pystr" where
  "css_optimized cfg css_code =
     (if optimize_css cfg then css_decommented cfg css_code
      else css_decommented cfg css_code)"

definition css_unblanked :: "config \<Rightarrow> pystr \<Rightarrow> pystr" where
  "css_unblanked cfg css_code = strip_lines (css_optimized cfg css_code)"

definition css_formatted :: "config \<Rightarrow> pystr \<Rightarrow> pystr" where
  "css_formatted cfg css_code =
     (if clean_format cfg = py ''compact''
      then replace [10, 10] [] (css_unblanked cfg css_code)
      else if clean_format cfg = py ''readable''
      then sub_brace_newline (css_unblanked cfg css_code)
      else css_unblanked cfg css_code)"

definition clean_css_text :: "config \<Rightarrow> pystr \<Rightarrow> pystr" where
  "clean_css_text cfg css_code = add_watermark (css_formatted cfg css_code)"

section \<open>The markup pipeline\<close>

text \<open>
  The document tree of BeautifulSoup: a tag with its name, attributes and children, or
  a string node. \<open>NavigableString\<close> has subclasses (\<open>Comment\<close>, \<open>CData\<close>, ...); the
  text of a string node is what stands between its delimiters, so the text of the
  comment \<open><!-- a -->\<close> is \<open>" a "\<close>.
\<close>

datatype strclass =
  NavigableString | Comment | CData | ProcessingInstruction | Declaration | Doctype

datatype node =
  Tag pystr "(pystr \<times> pystr) list" "node list"
| Str strclass pystr

text \<open>
  \<open>for x in soup.find_all(string=p): x.extract()\<close>: \<open>find_all(string=p)\<close> collects
  the string nodes of every class, at every depth, whose text satisfies \<open>p\<close>, and
  \<open>extract\<close> takes each of them out of the tree.
\<close>

fun extract_strings :: "(pystr \<Rightarrow> bool) \<Rightarrow> node \<Rightarrow> node list" where
  "extract_strings p (Str k text) = (if p text then [] else [Str k text])"
| "extract_strings p (Tag name attrs children) =
     [Tag name attrs (concat (map (extract_strings p) children))]"

definition extract_all :: "(pystr \<Rightarrow> bool) \<Rightarrow> node list \<Rightarrow> node list" where
  "extract_all p soup = concat (map (extract_strings p) soup)"

text \<open>\<open>lambda text: isinstance(text, str) and text.startswith("<!--")\<close>\<close>

definition is_comment_text :: "pystr \<Rightarrow> bool" where
  "is_comment_text text \<longleftrightarrow> prefix (py ''<!--'') text"

definition html_decommented :: "config \<Rightarrow> node list \<Rightarrow> node list" where
  "html_decommented cfg soup =
     (if remove_comments cfg then extract_all is_comment_text soup else soup)"

text \<open>
  The value of \<open>cleaned_html\<close> in \<open>clean_html\<close> after each of its steps. The parser
  (\<open>BeautifulSoup(f, "html.parser")\<close>, giving the top-level nodes) and the serializer
  (\<open>soup.prettify(formatter="html")\<close>) belong to the library and are parameters.
\<close>

definition html_unblanked ::
  "(node list \<Rightarrow> pystr) \<Rightarrow> config \<Rightarrow> node list \<Rightarrow> pystr" where
  "html_unblanked prettify cfg soup =
     (if remove_empty_lines cfg then strip_lines (prettify (html_decommented cfg soup))
      else prettify (html_decommented cfg soup))"

definition html_normalized ::
  "(node list \<Rightarrow> pystr) \<Rightarrow> config \<Rightarrow> node list \<Rightarrow> pystr" where
  "html_normalized prettify cfg soup =
     (if normalize_indentation cfg
      then replace [9] [32, 32, 32, 32] (html_unblanked prettify cfg soup)
      else html_unblanked prettify cfg soup)"

definition html_formatted ::
  "(node list \<Rightarrow> pystr) \<Rightarrow> config \<Rightarrow> node list \<Rightarrow> pystr" where
  "html_formatted prettify cfg soup =
     (if clean_format cfg = py ''compact''
      then replace [10, 10] [] (html_normalized prettify cfg soup)
      else if clean_format cfg = py ''readable''
      then sub_brace_newline (html_normalized prettify cfg soup)
      else html_normalized prettify cfg soup)"

definition clean_html_text ::
  "(pystr \<Rightarrow> node list) \<Rightarrow> (node list \<Rightarrow> pystr) \<Rightarrow> config \<Rightarrow> pystr \<Rightarrow> pystr" where
  "clean_html_text parse prettify cfg html =
     add_watermark (html_formatted prettify cfg (parse html))"

section \<open>Files, backup and log\<close>

text \<open>
  The file system: \<open>file_of\<close> gives the file that a path leads to, so that two paths
  lead to the same file exactly when \<open>os.path.samefile\<close> holds of them (as it does of
  \<open>backup/a.js\<close> and \<open>./backup/a.js\<close>, of a link and its target), and \<open>files\<close>
  gives the text of a file, if the file exists. Every access by path goes through
  \<open>file_of\<close>. \<open>stdout\<close> collects what \<open>print\<close> writes, oldest first. A missing
  file and a copy of a file onto itself raise; the exception ends the run and is the
  \<open>Inl\<close> result.
\<close>

record world =
  file_of :: "pystr \<Rightarrow> pystr"
  files :: "pystr \<rightharpoonup> pystr"
  stdout :: "pystr list"

definition content :: "world \<Rightarrow> pystr \<Rightarrow> pystr option" where
  "content w path = files w (file_of w path)"

definition samefile :: "world \<Rightarrow> pystr \<Rightarrow> pystr \<Rightarrow> bool" where
  "samefile w p q \<longleftrightarrow> file_of w p = file_of w q"

datatype error = FileNotFoundError | SameFileError

text \<open>\<open>os.path.basename\<close> and \<open>os.path.join\<close> (of two components) of \<open>posixpath\<close>\<close>

definition basename :: "pystr \<Rightarrow> pystr" where
  "basename p = rev (takeWhile (\<lambda>c. c \<noteq> 47) (rev p))"

definition path_join :: "pystr \<Rightarrow> pystr \<Rightarrow> pystr" where
  "path_join a b =
     (if prefix [47] b then b
      else if a = [] \<or> suffix [47] a then a @ b
      else a @ [47] @ b)"

text \<open>
  Reading a file opened with \<open>open(path, "r")\<close>: CR LF and a lone CR arrive as LF.
  Writing with \<open>"w"\<close> or \<open>"a"\<close> leaves LF as it is (POSIX).
\<close>

fun universal_newlines :: "pystr \<Rightarrow> pystr" where
  "universal_newlines [] = []"
| "universal_newlines [c] = (if c = 13 then [10] else [c])"
| "universal_newlines (c # d # cs) =
     (if c = 13 \<and> d = 10 then 10 # universal_newlines cs
      else if c = 13 then 10 # universal_newlines (d # cs)
      else c # universal_newlines (d # cs))"

definition read_text :: "world \<Rightarrow> pystr \<Rightarrow> error + pystr" where
  "read_text w path =
     (case content w path of
        None \<Rightarrow> Inl FileNotFoundError
      | Some data \<Rightarrow> Inr (universal_newlines data))"

definition write_text :: "pystr \<Rightarrow> pystr \<Rightarrow> world \<Rightarrow> world" where
  "write_text path text w = w\<lparr>files := (files w)(file_of w path \<mapsto> text)\<rparr>"

definition log_text :: "world \<Rightarrow> pystr" where
  "log_text w = (case content w LOG_FILE_PATH of None \<Rightarrow> [] | Some text \<Rightarrow> text)"

definition log_message :: "pystr \<Rightarrow> world \<Rightarrow> world" where
  "log_message message w =
     w\<lparr>stdout := stdout w @ [py ''['' @ message @ py '']''],
       files := (files w)(file_of w LOG_FILE_PATH
                  \<mapsto> log_text w @ py ''['' @ message @ py '']'' @ [10])\<rparr>"

definition backup_path_of :: "config \<Rightarrow> pystr \<Rightarrow> pystr" where
  "backup_path_of cfg file_path = path_join (backup_directory cfg) (basename file_path)"

text \<open>
  \<open>shutil.copy2(src, dst)\<close> fails on a missing source, and on a source and a
  destination that are the same file, whatever the two paths look like; otherwise the
  destination holds the bytes of the source.
\<close>

definition copy2 :: "pystr \<Rightarrow> pystr \<Rightarrow> world \<Rightarrow> error + world" where
  "copy2 src dst w =
     (case content w src of
        None \<Rightarrow> Inl FileNotFoundError
      | Some data \<Rightarrow>
          if samefile w src dst then Inl SameFileError
          else Inr (w\<lparr>files := (files w)(file_of w dst \<mapsto> data)\<rparr>))"

definition create_backup :: "config \<Rightarrow> pystr \<Rightarrow> world \<Rightarrow> error + world" where
  "create_backup cfg file_path w =
     (let backup_path = backup_path_of cfg file_path in
      case copy2 file_path backup_path w of
        Inl e \<Rightarrow> Inl e
      | Inr w1 \<Rightarrow>
          Inr (log_message
                 (py ''Backup created for '' @ file_path @ py '' at '' @ backup_path) w1))"

section \<open>Cleaning one file\<close>

definition clean_html ::
  "(pystr \<Rightarrow> node list) \<Rightarrow> (node list \<Rightarrow> pystr) \<Rightarrow> config \<Rightarrow> pystr \<Rightarrow> world \<Rightarrow> error + world"
  where
  "clean_html parse prettify cfg file_path w =
     (case create_backup cfg file_path w of
        Inl e \<Rightarrow> Inl e
      | Inr w1 \<Rightarrow>
         (case read_text w1 file_path of
            Inl e \<Rightarrow> Inl e
          | Inr html \<Rightarrow>
             (let cleaned_html = clean_html_text parse prettify cfg html in
              if dry_run cfg
              then Inr (log_message (py ''Dry run: HTML changes for '' @ file_path) w1)
              else Inr (log_message (py ''HTML cleaned: '' @ file_path)
                     (write_text file_path cleaned_html w1)))))"

definition clean_js :: "config \<Rightarrow> pystr \<Rightarrow> world \<Rightarrow> error + world" where
  "clean_js cfg file_path w =
     (case create_backup cfg file_path w of
        Inl e \<Rightarrow> Inl e
      | Inr w1 \<Rightarrow>
         (case read_text w1 file_path of
            Inl e \<Rightarrow> Inl e
          | Inr text \<Rightarrow>
             (let js_code = clean_js_text cfg text in
              if dry_run cfg
              then Inr (log_message (py ''Dry run: JS changes for '' @ file_path) w1)
              else Inr (log_message (py ''JavaScript cleaned: '' @ file_path)
                     (write_text file_path js_code w1)))))"

definition clean_css :: "config \<Rightarrow> pystr \<Rightarrow> world \<Rightarrow> error + world" where
  "clean_css cfg file_path w =
     (case create_backup cfg file_path w of
        Inl e \<Rightarrow> Inl e
      | Inr w1 \<Rightarrow>
         (case read_text w1 file_path of
            Inl e \<Rightarrow> Inl e
          | Inr text \<Rightarrow>
             (let css_code = clean_css_text cfg text in
              if dry_run cfg
              then Inr (log_message (py ''Dry run: CSS changes for '' @ file_path) w1)
              else Inr (log_message (py ''CSS cleaned: '' @ file_path)
                     (write_text file_path css_code w1)))))"

section \<open>The directory walk\<close>

definition endswith :: "pystr \<Rightarrow> pystr \<Rightarrow> bool" where
  "endswith s suf \<longleftrightarrow> suffix suf s"

text \<open>The body of the inner loop of \<open>clean_directory\<close>, for one file name of \<open>root\<close>.\<close>

definition visit_file ::
  "(pystr \<Rightarrow> node list) \<Rightarrow> (node list \<Rightarrow> pystr) \<Rightarrow> config \<Rightarrow> pystr \<Rightarrow> pystr \<Rightarrow> world
     \<Rightarrow> error + world" where
  "visit_file parse prettify cfg root file w =
     (let file_path = path_join root file in
      if endswith file (py ''.html'') then clean_html parse prettify cfg file_path w
      else if endswith file (py ''.js'') then clean_js cfg file_path w
      else if endswith file (py ''.css'') then clean_css cfg file_path w
      else Inr w)"

fun visit_files ::
  "(pystr \<Rightarrow> node list) \<Rightarrow> (node list \<Rightarrow> pystr) \<Rightarrow> config \<Rightarrow> pystr \<Rightarrow> pystr list \<Rightarrow> world
     \<Rightarrow> error + world" where
  "visit_files parse prettify cfg root [] w = Inr w"
| "visit_files parse prettify cfg root (file # rest) w =
     (case visit_file parse prettify cfg root file w of
        Inl e \<Rightarrow> Inl e
      | Inr w' \<Rightarrow> visit_files parse prettify cfg root rest w')"

fun visit_dirs ::
  "(pystr \<Rightarrow> node list) \<Rightarrow> (node list \<Rightarrow> pystr) \<Rightarrow> config \<Rightarrow> (pystr \<times> pystr list) list
     \<Rightarrow> world \<Rightarrow> error + world" where
  "visit_dirs parse prettify cfg [] w = Inr w"
| "visit_dirs parse prettify cfg ((root, names) # rest) w =
     (case visit_files parse prettify cfg root names w of
        Inl e \<Rightarrow> Inl e
      | Inr w' \<Rightarrow> visit_dirs parse prettify cfg rest w')"

text \<open>
  \<open>clean_directory\<close> stores the format in the configuration and walks the tree.
  \<open>walk\<close> is what the file system answers: \<open>None\<close> when \<open>os.path.exists(directory)\<close>
  is false, otherwise the pairs of a directory and its file names that
  \<open>os.walk(directory)\<close> yields, in its order. The result carries the configuration as
  the call leaves it.
\<close>

definition clean_directory ::
  "(pystr \<Rightarrow> node list) \<Rightarrow> (node list \<Rightarrow> pystr) \<Rightarrow> (pystr \<times> pystr list) list option
     \<Rightarrow> config \<Rightarrow> pystr \<Rightarrow> pystr \<Rightarrow> world \<Rightarrow> error + config \<times> world" where
  "clean_directory parse prettify walk cfg directory fmt w =
     (let cfg' = cfg\<lparr>clean_format := fmt\<rparr> in
      case walk of
        None \<Rightarrow>
          Inr (cfg', log_message (py ''Directory '' @ directory @ py '' does not exist!'') w)
      | Some dirs \<Rightarrow>
         (case visit_dirs parse prettify cfg' dirs w of
            Inl e \<Rightarrow> Inl e
          | Inr w' \<Rightarrow> Inr (cfg', w')))"

section \<open>A concrete run\<close>

text \<open>
  A file system with one script and one text file under \<open>site\<close> and an earlier
  backup copy under \<open>backup\<close>; a path that starts with \<open>./\<close> leads to the same file
  as the path without it.
\<close>

definition w0 :: world where
  "w0 = \<lparr>file_of = (\<lambda>p. if prefix (py ''./'') p then drop 2 p else p),
         files = [py ''site/a.js'' \<mapsto> py ''x = 1;'', py ''site/notes.txt'' \<mapsto> py ''hello'',
                  py ''backup/old.js'' \<mapsto> py ''y = 2;''],
         stdout = []\<rparr>"

section \<open>Single spacing and the examples\<close>

text \<open>
  Every white-space code point of the text is a space, and no two of them are
  adjacent: what remains once each run of white space has become one space.
\<close>

fun spaced_once :: "pystr \<Rightarrow> bool" where
  "spaced_once [] = True"
| "spaced_once [c] = (isspace c \<longrightarrow> c = 32)"
| "spaced_once (c # d # cs) = ((isspace c \<longrightarrow> c = 32 \<and> \<not> isspace d) \<and> spaced_once (d # cs))"

text \<open>
  A line is trimmed when it is not empty and neither starts nor ends with white
  space: what \<open>line.strip()\<close> leaves of a line that is kept.
\<close>

definition trimmed :: "pystr \<Rightarrow> bool" where
  "trimmed l \<longleftrightarrow> l \<noteq> [] \<and> \<not> isspace (hd l) \<and> \<not> isspace (last l)"


definition nonblank_count :: "pystr list \<Rightarrow> nat" where
  "nonblank_count ls = length (filter (\<lambda>l. strip l \<noteq> []) ls)"


text \<open>
  The minify step in the words of the specification, to compare the source with:
  every run of white space becomes a single space (a white-space code point followed
  by another one is dropped, the last of a run becomes the space), then every newline
  character is deleted.
\<close>

fun collapse_runs_spec :: "pystr \<Rightarrow> pystr" where
  "collapse_runs_spec [] = []"
| "collapse_runs_spec [c] = [if isspace c then 32 else c]"
| "collapse_runs_spec (c # d # cs) =
     (if isspace c \<and> isspace d then collapse_runs_spec (d # cs)
      else (if isspace c then 32 else c) # collapse_runs_spec (d # cs))"

definition minify_spec :: "pystr \<Rightarrow> pystr" where
  "minify_spec js_code = filter (\<lambda>c. c \<noteq> 10) (collapse_runs_spec js_code)"

text \<open>The script and the stylesheet that the specification gives as examples.\<close>

definition js_example :: pystr where
  "js_example = py ''function f() {\<newline>  return 1;\<newline>}''"

definition css_example :: pystr where
  "css_example = py ''a{color:red;} /* comment \<newline> spanning */ b{}''"

text \<open>
  The tree that \<open>html.parser\<close> builds for \<open><p>a</p><!-- note -->\<close>: a tag with
  one string, then a comment node whose text is \<open>" note "\<close>.
\<close>

definition soup_example :: "node list" where
  "soup_example = [Tag (py ''p'') [] [Str NavigableString (py ''a'')], Str Comment (py '' note '')]"

section \<open>Options that a pipeline does not read\<close>

lemma create_backup_optimize_css [simp]:
  "create_backup (cfg\<lparr>optimize_css := b\<rparr>) file_path w = create_backup cfg file_path w"
  by (simp add: create_backup_def backup_path_of_def)

lemma create_backup_normalize_indentation [simp]:
  "create_backup (cfg\<lparr>normalize_indentation := b\<rparr>) file_path w
     = create_backup cfg file_path w"
  by (simp add: create_backup_def backup_path_of_def)

lemma clean_css_text_optimize_css [simp]:
  "clean_css_text (cfg\<lparr>optimize_css := b\<rparr>) css_code = clean_css_text cfg css_code"
  by (simp add: clean_css_text_def css_formatted_def css_unblanked_def css_optimized_def
      css_decommented_def)

lemma clean_css_text_normalize_indentation [simp]:
  "clean_css_text (cfg\<lparr>normalize_indentation := b\<rparr>) css_code = clean_css_text cfg css_code"
  by (simp add: clean_css_text_def css_formatted_def css_unblanked_def css_optimized_def
      css_decommented_def)

lemma clean_js_text_normalize_indentation [simp]:
  "clean_js_text (cfg\<lparr>normalize_indentation := b\<rparr>) js_code = clean_js_text cfg js_code"
  by (simp add: clean_js_text_def js_formatted_def js_minified_def js_unblanked_def
      js_decommented_def)

text \<open>
  C8. For every stylesheet text and every value of the other options, the stylesheet
  pipeline gives the same text with \<open>optimize_css\<close> on and off, and \<open>clean_css\<close> leaves
  the same files, log and output behind: the \<open>optimize_css\<close> step changes nothing.
\<close>

theorem optimize_css_noop:
  "clean_css_text (cfg\<lparr>optimize_css := True\<rparr>) css_code
     = clean_css_text (cfg\<lparr>optimize_css := False\<rparr>) css_code
   \<and> clean_css (cfg\<lparr>optimize_css := True\<rparr>) file_path w
     = clean_css (cfg\<lparr>optimize_css := False\<rparr>) file_path w"
  by (simp add: clean_css_def Let_def split: sum.split)

text \<open>
  C10. For every script or stylesheet text and every value of the other options, the
  script and stylesheet pipelines give the same text with \<open>normalize_indentation\<close> on
  and off, and \<open>clean_js\<close> and \<open>clean_css\<close> leave the same files, log and output
  behind: the flag never expands a tab in a script or a stylesheet.
\<close>

theorem normalize_indentation_markup_only:
  "clean_js_text (cfg\<lparr>normalize_indentation := True\<rparr>) text
     = clean_js_text (cfg\<lparr>normalize_indentation := False\<rparr>) text
   \<and> clean_css_text (cfg\<lparr>normalize_indentation := True\<rparr>) text
     = clean_css_text (cfg\<lparr>normalize_indentation := False\<rparr>) text
   \<and> clean_js (cfg\<lparr>normalize_indentation := True\<rparr>) file_path w
     = clean_js (cfg\<lparr>normalize_indentation := False\<rparr>) file_path w
   \<and> clean_css (cfg\<lparr>normalize_indentation := True\<rparr>) file_path w
     = clean_css (cfg\<lparr>normalize_indentation := False\<rparr>) file_path w"
  by (simp add: clean_js_def clean_css_def Let_def split: sum.split)

section \<open>Files, backup and log: what one call does\<close>

lemma samefile_refl [simp]: "samefile w p p"
  by (simp add: samefile_def)

lemma samefile_sym: "samefile w p q \<longleftrightarrow> samefile w q p"
  by (auto simp: samefile_def)

lemma file_of_log_message [simp]: "file_of (log_message m w) = file_of w"
  by (simp add: log_message_def)

lemma samefile_log_message [simp]: "samefile (log_message m w) p q = samefile w p q"
  by (simp add: samefile_def)

lemma file_of_write_text [simp]: "file_of (write_text p d w) = file_of w"
  by (simp add: write_text_def)

lemma samefile_write_text [simp]: "samefile (write_text p d w) q r = samefile w q r"
  by (simp add: samefile_def)

lemma stdout_write_text [simp]: "stdout (write_text p d w) = stdout w"
  by (simp add: write_text_def)

lemma content_write_text:
  "content (write_text p d w) q = (if samefile w q p then Some d else content w q)"
  by (simp add: write_text_def content_def samefile_def)

lemma log_text_write_text:
  "\<not> samefile w p LOG_FILE_PATH \<Longrightarrow> log_text (write_text p d w) = log_text w"
  by (simp add: log_text_def content_write_text samefile_sym[of w p])

lemma content_log_message:
  "content (log_message m w) q =
     (if samefile w q LOG_FILE_PATH then Some (log_text w @ py ''['' @ m @ py '']'' @ [10])
      else content w q)"
  by (simp add: log_message_def content_def samefile_def)

lemma stdout_log_message:
  "stdout (log_message m w) = stdout w @ [py ''['' @ m @ py '']'']"
  by (simp add: log_message_def)

lemma log_text_log_message:
  "log_text (log_message m w) = log_text w @ py ''['' @ m @ py '']'' @ [10]"
  by (simp add: log_text_def content_log_message)

lemma copy2_ok:
  assumes "content w src = Some data" and "\<not> samefile w src dst"
  shows "copy2 src dst w = Inr (write_text dst data w)"
  using assms by (simp add: copy2_def write_text_def)

lemma copy2_samefile:
  assumes "content w src = Some data" and "samefile w src dst"
  shows "copy2 src dst w = Inl SameFileError"
  using assms by (simp add: copy2_def)

lemma create_backup_ok:
  assumes "content w p = Some data" and "\<not> samefile w p (backup_path_of cfg p)"
  shows "create_backup cfg p w =
           Inr (log_message
                 (py ''Backup created for '' @ p @ py '' at '' @ backup_path_of cfg p)
                 (write_text (backup_path_of cfg p) data w))"
  using assms by (simp add: create_backup_def Let_def copy2_ok)

lemma create_backup_samefile:
  assumes "content w p = Some data" and "samefile w p (backup_path_of cfg p)"
  shows "create_backup cfg p w = Inl SameFileError"
  using assms by (simp add: create_backup_def Let_def copy2_samefile)

lemma read_after_backup:
  assumes "content w p = Some data" and "\<not> samefile w p (backup_path_of cfg p)"
    and "\<not> samefile w p LOG_FILE_PATH"
  shows "read_text (log_message m (write_text (backup_path_of cfg p) data w)) p
           = Inr (universal_newlines data)"
  using assms by (simp add: read_text_def content_log_message content_write_text)

lemma clean_js_ok:
  assumes "content w p = Some data" and "\<not> samefile w p (backup_path_of cfg p)"
    and "\<not> samefile w p LOG_FILE_PATH"
  shows "clean_js cfg p w =
     (let w1 = log_message
                 (py ''Backup created for '' @ p @ py '' at '' @ backup_path_of cfg p)
                 (write_text (backup_path_of cfg p) data w)
      in if dry_run cfg then Inr (log_message (py ''Dry run: JS changes for '' @ p) w1)
         else Inr (log_message (py ''JavaScript cleaned: '' @ p)
                (write_text p (clean_js_text cfg (universal_newlines data)) w1)))"
  using assms
  by (simp add: clean_js_def create_backup_ok read_after_backup Let_def)

lemma clean_css_ok:
  assumes "content w p = Some data" and "\<not> samefile w p (backup_path_of cfg p)"
    and "\<not> samefile w p LOG_FILE_PATH"
  shows "clean_css cfg p w =
     (let w1 = log_message
                 (py ''Backup created for '' @ p @ py '' at '' @ backup_path_of cfg p)
                 (write_text (backup_path_of cfg p) data w)
      in if dry_run cfg then Inr (log_message (py ''Dry run: CSS changes for '' @ p) w1)
         else Inr (log_message (py ''CSS cleaned: '' @ p)
                (write_text p (clean_css_text cfg (universal_newlines data)) w1)))"
  using assms
  by (simp add: clean_css_def create_backup_ok read_after_backup Let_def)

lemma clean_html_ok:
  assumes "content w p = Some data" and "\<not> samefile w p (backup_path_of cfg p)"
    and "\<not> samefile w p LOG_FILE_PATH"
  shows "clean_html parse prettify cfg p w =
     (let w1 = log_message
                 (py ''Backup created for '' @ p @ py '' at '' @ backup_path_of cfg p)
                 (write_text (backup_path_of cfg p) data w)
      in if dry_run cfg then Inr (log_message (py ''Dry run: HTML changes for '' @ p) w1)
         else Inr (log_message (py ''HTML cleaned: '' @ p)
                (write_text p (clean_html_text parse prettify cfg (universal_newlines data)) w1)))"
  using assms
  by (simp add: clean_html_def create_backup_ok read_after_backup Let_def)

lemma visit_file_dry:
  assumes dry: "dry_run cfg"
    and ext: "endswith file (py ''.html'') \<or> endswith file (py ''.js'')
      \<or> endswith file (py ''.css'')"
    and ex: "content w (path_join root file) = Some data"
    and nb: "\<not> samefile w (path_join root file) (backup_path_of cfg (path_join root file))"
    and nl: "\<not> samefile w (path_join root file) LOG_FILE_PATH"
  shows "\<exists>m.
     visit_file parse prettify cfg root file w =
       Inr (log_message m
             (log_message
                (py ''Backup created for '' @ path_join root file @ py '' at ''
                   @ backup_path_of cfg (path_join root file))
                (write_text (backup_path_of cfg (path_join root file)) data w)))"
proof -
  let ?p = "path_join root file"
  show ?thesis
  proof (cases "endswith file (py ''.html'')")
    case True
    then have "visit_file parse prettify cfg root file w = clean_html parse prettify cfg ?p w"
      by (simp add: visit_file_def)
    then show ?thesis
      unfolding clean_html_ok[OF ex nb nl] Let_def using dry by auto
  next
    case h: False
    show ?thesis
    proof (cases "endswith file (py ''.js'')")
      case True
      with h have "visit_file parse prettify cfg root file w = clean_js cfg ?p w"
        by (simp add: visit_file_def)
      then show ?thesis
        unfolding clean_js_ok[OF ex nb nl] Let_def using dry by auto
    next
      case j: False
      with h ext have "visit_file parse prettify cfg root file w = clean_css cfg ?p w"
        by (simp add: visit_file_def)
      then show ?thesis
        unfolding clean_css_ok[OF ex nb nl] Let_def using dry by auto
    qed
  qed
qed

text \<open>
  C7. For a file name the walk visits that ends in none of \<open>.html\<close>, \<open>.js\<close> and
  \<open>.css\<close>, the loop body returns the world as it found it: every file keeps its
  content, no backup copy is written, and nothing is added to the log or printed.
\<close>

theorem unrecognized_file_skipped:
  assumes "\<not> endswith file (py ''.html'')" and "\<not> endswith file (py ''.js'')"
    and "\<not> endswith file (py ''.css'')"
  shows "visit_file parse prettify cfg root file w = Inr w"
  using assms by (simp add: visit_file_def)

text \<open>
  C3. With \<open>dry_run\<close> on, for a file the walk dispatches (its name ends in \<open>.html\<close>,
  \<open>.js\<close> or \<open>.css\<close>) that exists, where the file, its backup copy and the log are
  three different files (\<open>shutil.copy2\<close> raises on a file that is its own backup
  copy), the call returns, the file has the content it had before, the backup path
  holds a copy of that content, two entries are printed and appended to the log, and
  no file other than the backup copy and the log is changed.
\<close>

theorem dry_run_keeps_file:
  assumes dry: "dry_run cfg"
    and ext: "endswith file (py ''.html'') \<or> endswith file (py ''.js'')
      \<or> endswith file (py ''.css'')"
    and ex: "content w (path_join root file) = Some data"
    and nb: "\<not> samefile w (path_join root file) (backup_path_of cfg (path_join root file))"
    and nl: "\<not> samefile w (path_join root file) LOG_FILE_PATH"
    and bl: "\<not> samefile w (backup_path_of cfg (path_join root file)) LOG_FILE_PATH"
  shows "\<exists>w'. visit_file parse prettify cfg root file w = Inr w'
     \<and> content w' (path_join root file) = Some data
     \<and> content w' (backup_path_of cfg (path_join root file)) = Some data
     \<and> (\<exists>e1 e2. stdout w' = stdout w @ [e1, e2]
           \<and> log_text w' = log_text w @ e1 @ [10] @ e2 @ [10])
     \<and> file_of w' = file_of w
     \<and> (\<forall>q. \<not> samefile w q (backup_path_of cfg (path_join root file))
             \<and> \<not> samefile w q LOG_FILE_PATH
           \<longrightarrow> content w' q = content w q)"
proof -
  let ?p = "path_join root file"
  let ?b = "backup_path_of cfg ?p"
  from visit_file_dry[OF dry ext ex nb nl, of parse prettify] obtain m where
    v: "visit_file parse prettify cfg root file w =
      Inr (log_message m (log_message
             (py ''Backup created for '' @ ?p @ py '' at '' @ ?b)
             (write_text ?b data w)))"
    by auto
  have lt: "log_text (write_text ?b data w) = log_text w"
    using bl by (rule log_text_write_text)
  show ?thesis
    unfolding v using ex nb nl bl lt
    by (simp add: content_log_message content_write_text stdout_log_message
        log_text_log_message)
qed

text \<open>
  C1. For every input text and every configuration (so for both formats), the text
  each of the three pipelines produces is the watermark followed by the cleaned
  content.
\<close>

theorem watermark_first:
  "clean_html_text parse prettify cfg html = WATERMARK @ html_formatted prettify cfg (parse html)
   \<and> clean_js_text cfg js_code = WATERMARK @ js_formatted cfg js_code
   \<and> clean_css_text cfg css_code = WATERMARK @ css_formatted cfg css_code"
  by (simp add: clean_html_text_def clean_js_text_def clean_css_text_def add_watermark_def)

lemma ex_paths:
  "path_join (py ''site'') (py ''a.js'') = py ''site/a.js''"
  "path_join (py ''site'') (py ''notes.txt'') = py ''site/notes.txt''"
  "backup_path_of (DEFAULT_CONFIG\<lparr>dry_run := True\<rparr>) (py ''site/a.js'') = py ''backup/a.js''"
  "path_join (py ''./backup'') (py ''old.js'') = py ''./backup/old.js''"
  "backup_path_of (DEFAULT_CONFIG\<lparr>dry_run := True\<rparr>) (py ''./backup/old.js'')
     = py ''backup/old.js''"
  by (simp_all add: path_join_def backup_path_of_def basename_def DEFAULT_CONFIG_def py_def
      suffix_to_prefix)

lemma ex_ends:
  "endswith (py ''a.js'') (py ''.js'')"
  "\<not> endswith (py ''notes.txt'') (py ''.html'')"
  "\<not> endswith (py ''notes.txt'') (py ''.js'')"
  "\<not> endswith (py ''notes.txt'') (py ''.css'')"
  "\<not> endswith (py ''old.js'') (py ''.html'')"
  "endswith (py ''old.js'') (py ''.js'')"
  by (simp_all add: endswith_def py_def suffix_to_prefix)

lemma ex_files:
  "content w0 (py ''site/a.js'') = Some (py ''x = 1;'')"
  "content w0 (py ''./backup/old.js'') = Some (py ''y = 2;'')"
  "\<not> samefile w0 (py ''site/a.js'') (py ''backup/a.js'')"
  "\<not> samefile w0 (py ''site/a.js'') LOG_FILE_PATH"
  "\<not> samefile w0 (py ''backup/a.js'') LOG_FILE_PATH"
  "samefile w0 (py ''./backup/old.js'') (py ''backup/old.js'')"
  by (simp_all add: w0_def content_def samefile_def LOG_FILE_PATH_def py_def)

text \<open>
  The walk of \<open>.\<close> reaches the backup directory as \<open>./backup\<close>: the file there is
  its own backup copy under another path, and the call raises before anything is
  logged.
\<close>

lemma backup_of_backup_raises:
  "visit_file parse prettify (DEFAULT_CONFIG\<lparr>dry_run := True\<rparr>) (py ''./backup'') (py ''old.js'') w0
     = Inl SameFileError"
proof -
  have "clean_js (DEFAULT_CONFIG\<lparr>dry_run := True\<rparr>) (py ''./backup/old.js'') w0
      = Inl SameFileError"
    using create_backup_samefile[of w0 "py ''./backup/old.js''" "py ''y = 2;''"
        "DEFAULT_CONFIG\<lparr>dry_run := True\<rparr>"] ex_files(2,6)
    by (simp add: clean_js_def ex_paths(5))
  then show ?thesis
    using ex_ends(5,6) by (simp add: visit_file_def ex_paths(4))
qed

theorem unrecognized_file_skipped_witness:
  "\<not> endswith (py ''notes.txt'') (py ''.html'') \<and> \<not> endswith (py ''notes.txt'') (py ''.js'')
   \<and> \<not> endswith (py ''notes.txt'') (py ''.css'')
   \<and> visit_file (\<lambda>html. []) (\<lambda>soup. []) DEFAULT_CONFIG (py ''site'') (py ''notes.txt'') w0 = Inr w0"
  using unrecognized_file_skipped[of "py ''notes.txt''" "\<lambda>html. []" "\<lambda>soup. []"
      DEFAULT_CONFIG "py ''site''" w0] ex_ends
  by simp

theorem dry_run_keeps_file_witness:
  "dry_run (DEFAULT_CONFIG\<lparr>dry_run := True\<rparr>)
   \<and> (endswith (py ''a.js'') (py ''.html'') \<or> endswith (py ''a.js'') (py ''.js'')
       \<or> endswith (py ''a.js'') (py ''.css''))
   \<and> content w0 (path_join (py ''site'') (py ''a.js'')) = Some (py ''x = 1;'')
   \<and> \<not> samefile w0 (path_join (py ''site'') (py ''a.js''))
         (backup_path_of (DEFAULT_CONFIG\<lparr>dry_run := True\<rparr>) (path_join (py ''site'') (py ''a.js'')))
   \<and> \<not> samefile w0 (path_join (py ''site'') (py ''a.js'')) LOG_FILE_PATH
   \<and> \<not> samefile w0
         (backup_path_of (DEFAULT_CONFIG\<lparr>dry_run := True\<rparr>) (path_join (py ''site'') (py ''a.js'')))
         LOG_FILE_PATH
   \<and> (\<exists>w'. visit_file (\<lambda>html. []) (\<lambda>soup. []) (DEFAULT_CONFIG\<lparr>dry_run := True\<rparr>)
              (py ''site'') (py ''a.js'') w0 = Inr w'
         \<and> content w' (py ''site/a.js'') = Some (py ''x = 1;'')
         \<and> content w' (py ''backup/a.js'') = Some (py ''x = 1;'')
         \<and> log_text w' \<noteq> log_text w0)"
proof -
  have h: "dry_run (DEFAULT_CONFIG\<lparr>dry_run := True\<rparr>)"
    "endswith (py ''a.js'') (py ''.html'') \<or> endswith (py ''a.js'') (py ''.js'')
       \<or> endswith (py ''a.js'') (py ''.css'')"
    "content w0 (path_join (py ''site'') (py ''a.js'')) = Some (py ''x = 1;'')"
    "\<not> samefile w0 (path_join (py ''site'') (py ''a.js''))
         (backup_path_of (DEFAULT_CONFIG\<lparr>dry_run := True\<rparr>) (path_join (py ''site'') (py ''a.js'')))"
    "\<not> samefile w0 (path_join (py ''site'') (py ''a.js'')) LOG_FILE_PATH"
    "\<not> samefile w0
         (backup_path_of (DEFAULT_CONFIG\<lparr>dry_run := True\<rparr>) (path_join (py ''site'') (py ''a.js'')))
         LOG_FILE_PATH"
    using ex_ends(1) ex_files by (simp_all add: ex_paths)
  from dry_run_keeps_file[OF h, of "\<lambda>html. []" "\<lambda>soup. []"] h show ?thesis
    by (auto simp only: ex_paths simp_thms append_self_conv append_is_Nil_conv
        list.distinct)
qed

section \<open>Minifying, and the examples of the specification\<close>

lemma replace_absent: "c \<notin> set t \<Longrightarrow> replace [c] new t = t"
  by (induction t) auto

lemma sub_blank_runs_no_lf: "10 \<notin> set t \<Longrightarrow> sub_blank_runs t = t"
  by (induction t) auto

lemma sub_space_runs_head:
  "t = [] \<or> \<not> isspace (hd t) \<Longrightarrow> sub_space_runs t = [] \<or> \<not> isspace (hd (sub_space_runs t))"
  by (cases t) auto

lemma dropWhile_head: "dropWhile P t = [] \<or> \<not> P (hd (dropWhile P t))"
  by (induction t) auto

lemma spaced_once_sub_space_runs: "spaced_once (sub_space_runs t)"
proof (induction t rule: sub_space_runs.induct)
  case 1
  show ?case by simp
next
  case (2 c cs)
  show ?case
  proof (cases "isspace c")
    case True
    let ?r = "sub_space_runs (dropWhile isspace cs)"
    from sub_space_runs_head[OF dropWhile_head[of isspace cs]]
    have h: "?r = [] \<or> \<not> isspace (hd ?r)" .
    from 2(1)[OF True] have ih: "spaced_once ?r" .
    have "spaced_once (32 # ?r)" using h ih by (cases ?r) auto
    with True show ?thesis by simp
  next
    case False
    let ?r = "sub_space_runs cs"
    from 2(2)[OF False] have ih: "spaced_once ?r" .
    have "spaced_once (c # ?r)" using False ih by (cases ?r) auto
    with False show ?thesis by simp
  qed
qed

lemma sub_space_runs_spaces: "x \<in> set (sub_space_runs t) \<Longrightarrow> isspace x \<Longrightarrow> x = 32"
proof (induction t rule: sub_space_runs.induct)
  case 1
  then show ?case by simp
next
  case (2 c cs)
  then show ?case by (cases "isspace c") auto
qed

lemma sub_space_runs_no_lf: "10 \<notin> set (sub_space_runs t)"
proof
  assume "10 \<in> set (sub_space_runs t)"
  moreover have "isspace 10" by (simp add: isspace_def)
  ultimately have "(10::nat) = 32" by (rule sub_space_runs_spaces)
  then show False by simp
qed

lemma js_minified_on:
  "js_minify cfg \<Longrightarrow> js_minified cfg s = sub_space_runs (js_unblanked cfg s)"
  by (simp add: js_minified_def replace_absent sub_space_runs_no_lf)

lemma collapse_runs_spec_space:
  "isspace c \<Longrightarrow> collapse_runs_spec (c # cs) = 32 # collapse_runs_spec (dropWhile isspace cs)"
proof (induction cs arbitrary: c)
  case Nil
  then show ?case by simp
next
  case (Cons d ds)
  then show ?case by (cases "isspace d") simp_all
qed

lemma collapse_runs_spec_other:
  "\<not> isspace c \<Longrightarrow> collapse_runs_spec (c # cs) = c # collapse_runs_spec cs"
  by (cases cs) simp_all

lemma sub_space_runs_spec: "sub_space_runs t = collapse_runs_spec t"
proof (induction t rule: sub_space_runs.induct)
  case 1
  show ?case by simp
next
  case (2 c cs)
  then show ?case
    by (cases "isspace c") (simp_all add: collapse_runs_spec_space collapse_runs_spec_other)
qed

lemma sub_space_runs_keeps:
  "filter (\<lambda>c. \<not> isspace c) (sub_space_runs t) = filter (\<lambda>c. \<not> isspace c) t"
proof (induction t rule: sub_space_runs.induct)
  case 1
  show ?case by simp
next
  case (2 c cs)
  show ?case
  proof (cases "isspace c")
    case True
    have s32: "isspace 32" by (simp add: isspace_def)
    have d: "filter (\<lambda>c. \<not> isspace c) (dropWhile isspace cs) = filter (\<lambda>c. \<not> isspace c) cs"
      by (induction cs) simp_all
    from 2(1)[OF True] True s32 d show ?thesis by simp
  next
    case False
    with 2(2)[OF False] show ?thesis by simp
  qed
qed

lemma sub_space_runs_split:
  "\<not> isspace c \<Longrightarrow> sub_space_runs (a @ c # b) = sub_space_runs a @ c # sub_space_runs b"
proof (induction a rule: sub_space_runs.induct)
  case 1
  then show ?case by simp
next
  case (2 x xs)
  show ?case
  proof (cases "isspace x")
    case True
    have d: "dropWhile isspace (xs @ c # b) = dropWhile isspace xs @ c # b"
      using 2(3) by (induction xs) simp_all
    from 2(1)[OF True 2(3)] True d show ?thesis by simp
  next
    case False
    with 2(2)[OF False 2(3)] show ?thesis by simp
  qed
qed

lemma sub_space_runs_gap:
  assumes "g \<noteq> []" and "\<forall>x\<in>set g. isspace x" and "\<not> isspace d"
  shows "sub_space_runs (g @ d # b) = 32 # d # sub_space_runs b"
proof -
  from assms(1) obtain x xs where g: "g = x # xs" by (cases g) auto
  have "dropWhile isspace (xs @ d # b) = d # b"
    using assms(2,3) g by (induction xs) simp_all
  then show ?thesis using assms g by simp
qed

lemma js_example_steps:
  "sub_block_comments (sub_line_comments js_example) = js_example"
  "strip_lines js_example = py ''function f() {\<newline>return 1;\<newline>}''"
  "sub_space_runs (py ''function f() {\<newline>return 1;\<newline>}'') = py ''function f() { return 1; }''"
  by (simp_all add: js_example_def py_def strip_lines_def strip_def isspace_def is_linebreak_def)

lemma js_example_minified:
  assumes "js_minify cfg"
  shows "js_minified cfg js_example = py ''function f() { return 1; }''"
  unfolding js_minified_on[OF assms] js_unblanked_def js_decommented_def
  by (cases "remove_comments cfg") (simp_all only: js_example_steps if_True if_False)

text \<open>
  C4, as stated, fails: with \<open>js_minify\<close> on, the output for the example script
  still holds a newline character, since the watermark that leads it has several.
\<close>

theorem minify_output_has_newline:
  "10 \<in> set (clean_js_text (DEFAULT_CONFIG\<lparr>js_minify := True\<rparr>) js_example)"
  by (simp add: clean_js_text_def add_watermark_def WATERMARK_def py_def)

text \<open>
  C4, amended. With \<open>js_minify\<close> on, the content after the minify step is the content
  before it with every run of white space collapsed to a single space and no newline
  left: it is what the specification's minify step gives, it has the same code points
  other than white space in the same order, two of them that a (possibly empty) run
  of white space separates are separated by exactly one space (by nothing when the
  run is empty), it holds no newline, and every white-space code point in it is a
  lone space. The output is the watermark followed by that content, with a newline
  after each closing brace in the readable format. For the example script the output
  is the watermark followed by \<open>function f() { return 1; }\<close> (and one newline in the
  readable format).
\<close>

theorem minify_single_line:
  assumes "js_minify cfg"
  shows "js_minified cfg s = minify_spec (js_unblanked cfg s)
    \<and> filter (\<lambda>c. \<not> isspace c) (js_minified cfg s)
        = filter (\<lambda>c. \<not> isspace c) (js_unblanked cfg s)
    \<and> (\<forall>a c g d b.
          js_unblanked cfg s = a @ c # g @ d # b \<and> \<not> isspace c \<and> \<not> isspace d
          \<and> (\<forall>x\<in>set g. isspace x)
        \<longrightarrow> (\<exists>a' b'.
              js_minified cfg s = a' @ c # (if g = [] then [] else [32]) @ d # b'
              \<and> filter (\<lambda>c. \<not> isspace c) a' = filter (\<lambda>c. \<not> isspace c) a
              \<and> filter (\<lambda>c. \<not> isspace c) b' = filter (\<lambda>c. \<not> isspace c) b))
    \<and> 10 \<notin> set (js_minified cfg s)
    \<and> spaced_once (js_minified cfg s)
    \<and> clean_js_text cfg s =
        WATERMARK @ (if clean_format cfg = py ''readable''
                     then sub_brace_newline (js_minified cfg s) else js_minified cfg s)
    \<and> clean_js_text cfg js_example =
        WATERMARK @ (if clean_format cfg = py ''readable''
                     then py ''function f() { return 1; }\<newline>''
                     else py ''function f() { return 1; }'')"
proof -
  have m: "js_minified cfg s = sub_space_runs (js_unblanked cfg s)"
    using assms by (rule js_minified_on)
  have n: "10 \<notin> set (js_minified cfg s)" unfolding m by (rule sub_space_runs_no_lf)
  have sp: "spaced_once (js_minified cfg s)" unfolding m by (rule spaced_once_sub_space_runs)
  have "filter (\<lambda>c. c \<noteq> 10) (sub_space_runs (js_unblanked cfg s))
      = sub_space_runs (js_unblanked cfg s)"
    using sub_space_runs_no_lf[of "js_unblanked cfg s"] by (auto simp: filter_id_conv)
  then have ms: "js_minified cfg s = minify_spec (js_unblanked cfg s)"
    unfolding m minify_spec_def by (simp only: sub_space_runs_spec)
  have k: "filter (\<lambda>c. \<not> isspace c) (js_minified cfg s)
        = filter (\<lambda>c. \<not> isspace c) (js_unblanked cfg s)"
    unfolding m by (rule sub_space_runs_keeps)
  have g: "\<forall>a c g d b.
          js_unblanked cfg s = a @ c # g @ d # b \<and> \<not> isspace c \<and> \<not> isspace d
          \<and> (\<forall>x\<in>set g. isspace x)
        \<longrightarrow> (\<exists>a' b'.
              js_minified cfg s = a' @ c # (if g = [] then [] else [32]) @ d # b'
              \<and> filter (\<lambda>c. \<not> isspace c) a' = filter (\<lambda>c. \<not> isspace c) a
              \<and> filter (\<lambda>c. \<not> isspace c) b' = filter (\<lambda>c. \<not> isspace c) b)"
  proof (intro allI impI)
    fix a c g d b
    assume h: "js_unblanked cfg s = a @ c # g @ d # b \<and> \<not> isspace c \<and> \<not> isspace d
          \<and> (\<forall>x\<in>set g. isspace x)"
    then have t: "js_unblanked cfg s = a @ c # g @ d # b" and c: "\<not> isspace c"
      and d: "\<not> isspace d" and gs: "\<forall>x\<in>set g. isspace x" by simp_all
    have r: "sub_space_runs (g @ d # b) = (if g = [] then [] else [32]) @ d # sub_space_runs b"
    proof (cases "g = []")
      case True
      then show ?thesis using d by simp
    next
      case False
      from sub_space_runs_gap[OF False gs d] False show ?thesis by simp
    qed
    have "js_minified cfg s
        = sub_space_runs a @ c # (if g = [] then [] else [32]) @ d # sub_space_runs b"
      unfolding m t sub_space_runs_split[OF c] r ..
    then show "\<exists>a' b'.
              js_minified cfg s = a' @ c # (if g = [] then [] else [32]) @ d # b'
              \<and> filter (\<lambda>c. \<not> isspace c) a' = filter (\<lambda>c. \<not> isspace c) a
              \<and> filter (\<lambda>c. \<not> isspace c) b' = filter (\<lambda>c. \<not> isspace c) b"
      using sub_space_runs_keeps[of a] sub_space_runs_keeps[of b] by blast
  qed
  have cr: "py ''compact'' \<noteq> py ''readable''" by (simp add: py_def)
  have f: "js_formatted cfg s =
      (if clean_format cfg = py ''readable'' then sub_brace_newline (js_minified cfg s)
       else js_minified cfg s)"
    using n cr by (auto simp: js_formatted_def sub_blank_runs_no_lf)
  have n2: "10 \<notin> set (js_minified cfg js_example)"
    unfolding js_minified_on[OF assms] by (rule sub_space_runs_no_lf)
  have b: "sub_brace_newline (py ''function f() { return 1; }'')
      = py ''function f() { return 1; }\<newline>''"
    by (simp add: py_def sub_brace_newline_def)
  have f2: "js_formatted cfg js_example =
      (if clean_format cfg = py ''readable'' then py ''function f() { return 1; }\<newline>''
       else py ''function f() { return 1; }'')"
    using n2 cr b
    by (auto simp: js_formatted_def sub_blank_runs_no_lf js_example_minified[OF assms])
  have o: "clean_js_text cfg s =
        WATERMARK @ (if clean_format cfg = py ''readable''
                     then sub_brace_newline (js_minified cfg s) else js_minified cfg s)"
    using f by (simp add: clean_js_text_def add_watermark_def)
  have o2: "clean_js_text cfg js_example =
        WATERMARK @ (if clean_format cfg = py ''readable''
                     then py ''function f() { return 1; }\<newline>''
                     else py ''function f() { return 1; }'')"
    using f2 by (simp add: clean_js_text_def add_watermark_def)
  from ms k g n sp o o2 show ?thesis by (intro conjI)
qed

theorem minify_single_line_witness:
  "js_minify (DEFAULT_CONFIG\<lparr>js_minify := True\<rparr>)
   \<and> clean_js_text (DEFAULT_CONFIG\<lparr>js_minify := True\<rparr>) js_example
       = WATERMARK @ py ''function f() { return 1; }''
   \<and> js_minified (DEFAULT_CONFIG\<lparr>js_minify := True\<rparr>) js_example
       = minify_spec (js_unblanked (DEFAULT_CONFIG\<lparr>js_minify := True\<rparr>) js_example)"
proof -
  have j: "js_minify (DEFAULT_CONFIG\<lparr>js_minify := True\<rparr>)" by simp
  have c: "clean_format (DEFAULT_CONFIG\<lparr>js_minify := True\<rparr>) \<noteq> py ''readable''"
    by (simp add: DEFAULT_CONFIG_def py_def)
  note t = minify_single_line[OF j, of js_example]
  from t have e: "clean_js_text (DEFAULT_CONFIG\<lparr>js_minify := True\<rparr>) js_example =
        WATERMARK @ (if clean_format (DEFAULT_CONFIG\<lparr>js_minify := True\<rparr>) = py ''readable''
                     then py ''function f() { return 1; }\<newline>''
                     else py ''function f() { return 1; }'')"
    by (elim conjE)
  from t have s: "js_minified (DEFAULT_CONFIG\<lparr>js_minify := True\<rparr>) js_example
       = minify_spec (js_unblanked (DEFAULT_CONFIG\<lparr>js_minify := True\<rparr>) js_example)"
    by (elim conjE)
  from e have e': "clean_js_text (DEFAULT_CONFIG\<lparr>js_minify := True\<rparr>) js_example
       = WATERMARK @ py ''function f() { return 1; }''"
    unfolding if_not_P[OF c] .
  from j e' s show ?thesis by (intro conjI)
qed

lemma css_example_steps:
  "sub_block_comments css_example = py ''a{color:red;}  b{}''"
  "strip_lines (py ''a{color:red;}  b{}'') = py ''a{color:red;}  b{}''"
  "replace [10, 10] [] (py ''a{color:red;}  b{}'') = py ''a{color:red;}  b{}''"
  "sub_brace_newline (py ''a{color:red;}  b{}'') = py ''a{color:red;}\<newline>  b{}\<newline>''"
  by (simp_all add: css_example_def py_def strip_lines_def strip_def isspace_def is_linebreak_def
      sub_brace_newline_def)

lemma css_example_sublists:
  "\<not> sublist (py ''/*'') (py ''a{color:red;}  b{}'')"
  "\<not> sublist (py ''*/'') (py ''a{color:red;}  b{}'')"
  "sublist (py ''a{color:red;}'') (py ''a{color:red;}  b{}'')"
  "sublist (py ''b{}'') (py ''a{color:red;}  b{}'')"
  "\<not> sublist (py ''/*'') (py ''a{color:red;}\<newline>  b{}\<newline>'')"
  "\<not> sublist (py ''*/'') (py ''a{color:red;}\<newline>  b{}\<newline>'')"
  "sublist (py ''a{color:red;}'') (py ''a{color:red;}\<newline>  b{}\<newline>'')"
  "sublist (py ''b{}'') (py ''a{color:red;}\<newline>  b{}\<newline>'')"
  by (simp_all add: py_def sublist_Cons_right)

lemma watermark_sublists:
  "sublist (py ''/*'') WATERMARK" "sublist (py ''*/'') WATERMARK"
  by (simp_all add: WATERMARK_def py_def sublist_Cons_right)

text \<open>
  C5, as stated, fails: with \<open>remove_comments\<close> on, the output for the example
  stylesheet holds both \<open>/*\<close> and \<open>*/\<close>, those of the watermark.
\<close>

theorem css_output_has_comment_pair:
  "sublist (py ''/*'') (clean_css_text DEFAULT_CONFIG css_example)
   \<and> sublist (py ''*/'') (clean_css_text DEFAULT_CONFIG css_example)"
  using watermark_sublists
  by (simp add: clean_css_text_def add_watermark_def sublist_append)

text \<open>
  C5, amended. With \<open>remove_comments\<close> on, the output for the example stylesheet is
  the watermark followed by the cleaned content; the cleaned content holds neither
  \<open>/*\<close> nor \<open>*/\<close>, and the text of both rules, \<open>a{color:red;}\<close> and
  \<open>b{}\<close>, is in it.
\<close>

theorem css_comment_removed:
  assumes "remove_comments cfg"
  shows "clean_css_text cfg css_example = WATERMARK @ css_formatted cfg css_example
    \<and> css_formatted cfg css_example =
        (if clean_format cfg = py ''readable'' then py ''a{color:red;}\<newline>  b{}\<newline>''
         else py ''a{color:red;}  b{}'')
    \<and> \<not> sublist (py ''/*'') (css_formatted cfg css_example)
    \<and> \<not> sublist (py ''*/'') (css_formatted cfg css_example)
    \<and> sublist (py ''a{color:red;}'') (css_formatted cfg css_example)
    \<and> sublist (py ''b{}'') (css_formatted cfg css_example)"
proof -
  have u: "css_unblanked cfg css_example = py ''a{color:red;}  b{}''"
    using assms
    by (simp add: css_unblanked_def css_optimized_def css_decommented_def css_example_steps)
  have cr: "py ''compact'' \<noteq> py ''readable''" by (simp add: py_def)
  have f: "css_formatted cfg css_example =
        (if clean_format cfg = py ''readable'' then py ''a{color:red;}\<newline>  b{}\<newline>''
         else py ''a{color:red;}  b{}'')"
    using cr by (auto simp: css_formatted_def u css_example_steps)
  show ?thesis
    unfolding f using css_example_sublists
    by (simp add: clean_css_text_def add_watermark_def f)
qed

theorem css_comment_removed_witness:
  "remove_comments DEFAULT_CONFIG
   \<and> clean_css_text DEFAULT_CONFIG css_example = WATERMARK @ py ''a{color:red;}  b{}''"
proof -
  have r: "remove_comments DEFAULT_CONFIG" by (simp add: DEFAULT_CONFIG_def)
  have c: "clean_format DEFAULT_CONFIG \<noteq> py ''readable''"
    by (simp add: DEFAULT_CONFIG_def py_def)
  note t = css_comment_removed[OF r, unfolded if_not_P[OF c]]
  from t r show ?thesis by (metis (no_types))
qed

text \<open>
  C2. With \<open>remove_comments\<close> on, the tree of \<open><p>a</p><!-- note -->\<close> keeps its
  comment node: the test \<open>text.startswith("<!--")\<close> reads the text of the node,
  which is \<open>" note "\<close>, so nothing is extracted and the comment is serialized.
\<close>

theorem comment_node_survives:
  "remove_comments DEFAULT_CONFIG
   \<and> html_decommented DEFAULT_CONFIG soup_example = soup_example
   \<and> Str Comment (py '' note '') \<in> set (html_decommented DEFAULT_CONFIG soup_example)"
  by (simp add: html_decommented_def DEFAULT_CONFIG_def soup_example_def extract_all_def
      is_comment_text_def py_def)

section \<open>Trimming lines and dropping the empty ones\<close>

lemma splitlines_no_break: "l \<in> set (splitlines s) \<Longrightarrow> c \<in> set l \<Longrightarrow> \<not> is_linebreak c"
proof (induction s arbitrary: l rule: splitlines.induct)
  case 1
  then show ?case by simp
next
  case (2 c' cs)
  from "2.prems"(2) have ne: "l \<noteq> []" by auto
  show ?case
  proof (cases "c' = 13")
    case True
    show ?thesis
    proof (cases cs)
      case Nil
      with True "2.prems" show ?thesis by simp
    next
      case (Cons d ds)
      show ?thesis
      proof (cases "d = 10")
        case t: True
        have "splitlines (c' # cs) = [] # splitlines ds" using True Cons t by simp
        with "2.prems"(1) ne have "l \<in> set (splitlines ds)" by (metis set_ConsD)
        from "2.IH"(1)[OF True Cons t this "2.prems"(2)] show ?thesis .
      next
        case f: False
        have "splitlines (c' # cs) = [] # splitlines (d # ds)" using True Cons f by simp
        with "2.prems"(1) ne have "l \<in> set (splitlines (d # ds))" by (metis set_ConsD)
        from "2.IH"(2)[OF True Cons f this "2.prems"(2)] show ?thesis .
      qed
    qed
  next
    case n13: False
    show ?thesis
    proof (cases "is_linebreak c'")
      case True
      have "splitlines (c' # cs) = [] # splitlines cs" using n13 True by simp
      with "2.prems"(1) ne have "l \<in> set (splitlines cs)" by (metis set_ConsD)
      from "2.IH"(3)[OF n13 True this "2.prems"(2)] show ?thesis .
    next
      case False
      show ?thesis
      proof (cases "splitlines cs")
        case Nil
        with "2.prems" n13 False show ?thesis by auto
      next
        case (Cons x xs)
        with "2.prems"(1) n13 False have "l = c' # x \<or> l \<in> set xs" by auto
        then show ?thesis
        proof
          assume "l = c' # x"
          with "2.prems"(2) have "c = c' \<or> c \<in> set x" by auto
          moreover have "x \<in> set (splitlines cs)" using Cons by simp
          ultimately show ?thesis using False "2.IH"(4)[OF n13 False] by blast
        next
          assume "l \<in> set xs"
          then have "l \<in> set (splitlines cs)" using Cons by simp
          from "2.IH"(4)[OF n13 False this "2.prems"(2)] show ?thesis .
        qed
      qed
    qed
  qed
qed

lemma splitlines_line:
  "\<forall>c\<in>set l. \<not> is_linebreak c \<Longrightarrow> splitlines (l @ 10 # r) = l # splitlines r"
proof (induction l)
  case Nil
  show ?case by (simp add: is_linebreak_def)
next
  case (Cons c l)
  then have "c \<noteq> 13" "\<not> is_linebreak c" by (auto simp: is_linebreak_def)
  then show ?case using Cons by simp
qed

lemma splitlines_single:
  "l \<noteq> [] \<Longrightarrow> \<forall>c\<in>set l. \<not> is_linebreak c \<Longrightarrow> splitlines l = [l]"
proof (induction l)
  case Nil
  then show ?case by simp
next
  case (Cons c l)
  then have c: "c \<noteq> 13" "\<not> is_linebreak c" by (auto simp: is_linebreak_def)
  show ?case
  proof (cases l)
    case Nil
    then show ?thesis using c by simp
  next
    case (Cons d ds)
    then show ?thesis using c Cons.IH Cons.prems by simp
  qed
qed

lemma splitlines_join:
  "\<forall>l\<in>set ls. l \<noteq> [] \<and> (\<forall>c\<in>set l. \<not> is_linebreak c) \<Longrightarrow> splitlines (join [10] ls) = ls"
proof (induction "[10::nat]" ls rule: join.induct)
  case 1
  show ?case by simp
next
  case (2 x)
  then show ?case by (simp add: splitlines_single)
next
  case (3 x y ys)
  then show ?case by (simp add: splitlines_line)
qed

lemma set_strip: "set (strip l) \<subseteq> set l"
proof -
  have "set (strip l) \<subseteq> set (dropWhile isspace l)"
    unfolding strip_def using set_dropWhileD by fastforce
  also have "\<dots> \<subseteq> set l" using set_dropWhileD by fastforce
  finally show ?thesis .
qed

lemma strip_trimmed: "strip l \<noteq> [] \<Longrightarrow> trimmed (strip l)"
proof -
  assume ne: "strip l \<noteq> []"
  let ?a = "dropWhile isspace l"
  let ?b = "dropWhile isspace (rev ?a)"
  have s: "strip l = rev ?b" by (simp add: strip_def)
  from ne s have bne: "?b \<noteq> []" by simp
  then have hb: "\<not> isspace (hd ?b)" by (rule hd_dropWhile)
  then have la: "\<not> isspace (last (strip l))" using bne by (simp add: s last_rev)
  from bne have ane: "?a \<noteq> []" by (metis dropWhile.simps(1) rev.simps(1))
  then have ha: "\<not> isspace (hd ?a)" by (rule hd_dropWhile)
  have "hd (strip l) = last ?b" using bne by (simp add: s hd_rev)
  also have "\<dots> = last (rev ?a)"
  proof -
    obtain p where p: "rev ?a = p @ ?b" by (metis takeWhile_dropWhile_id)
    then show ?thesis using bne by (metis last_appendR)
  qed
  also have "\<dots> = hd ?a" using ane by (simp add: last_rev)
  finally show ?thesis using ha la ne by (simp add: trimmed_def)
qed

lemma trimmed_strip: "trimmed l \<Longrightarrow> strip l = l"
proof -
  assume t: "trimmed l"
  then have a: "dropWhile isspace l = l" by (cases l) (auto simp: trimmed_def)
  from t have "rev l \<noteq> []" "\<not> isspace (hd (rev l))" by (auto simp: trimmed_def hd_rev)
  then have "dropWhile isspace (rev l) = rev l" by (cases "rev l") auto
  then show ?thesis by (simp add: strip_def a)
qed

lemma splitlines_strip_lines:
  "splitlines (strip_lines s) = map strip (filter (\<lambda>line. strip line \<noteq> []) (splitlines s))"
  unfolding strip_lines_def
proof (rule splitlines_join, intro ballI conjI)
  fix l assume l: "l \<in> set (map strip (filter (\<lambda>line. strip line \<noteq> []) (splitlines s)))"
  then obtain k where k: "k \<in> set (splitlines s)" "strip k \<noteq> []" "l = strip k" by auto
  show "l \<noteq> []" using k by simp
  fix c assume "c \<in> set l"
  then have "c \<in> set k" using k set_strip by auto
  with k(1) show "\<not> is_linebreak c" by (rule splitlines_no_break)
qed

lemma strip_lines_trimmed:
  "l \<in> set (splitlines (strip_lines s)) \<Longrightarrow> trimmed l"
  by (auto simp: splitlines_strip_lines strip_trimmed)

lemma js_decommented_remove_empty_lines [simp]:
  "js_decommented (cfg\<lparr>remove_empty_lines := b\<rparr>) s = js_decommented cfg s"
  by (simp add: js_decommented_def)

lemma css_optimized_remove_empty_lines [simp]:
  "css_optimized (cfg\<lparr>remove_empty_lines := b\<rparr>) s = css_optimized cfg s"
  by (simp add: css_optimized_def css_decommented_def)

text \<open>
  C6. For every text and every configuration, the script and the stylesheet pipeline
  trim each line and drop the lines that are empty after trimming: the lines after
  the step are the trimmed lines of the text before it that are not empty once
  trimmed, in order, each of them trimmed; the step and the output are the same
  whatever \<open>remove_empty_lines\<close> is. The markup pipeline does the same to the
  serialized tree when \<open>remove_empty_lines\<close> is on, and leaves it as it is when the
  option is off.
\<close>

theorem blank_lines_unconditional:
  "splitlines (js_unblanked cfg s)
     = map strip (filter (\<lambda>line. strip line \<noteq> []) (splitlines (js_decommented cfg s)))
   \<and> splitlines (css_unblanked cfg s)
     = map strip (filter (\<lambda>line. strip line \<noteq> []) (splitlines (css_optimized cfg s)))
   \<and> (\<forall>l\<in>set (splitlines (js_unblanked cfg s)). trimmed l \<and> strip l = l)
   \<and> (\<forall>l\<in>set (splitlines (css_unblanked cfg s)). trimmed l \<and> strip l = l)
   \<and> js_unblanked (cfg\<lparr>remove_empty_lines := b\<rparr>) s = js_unblanked cfg s
   \<and> css_unblanked (cfg\<lparr>remove_empty_lines := b\<rparr>) s = css_unblanked cfg s
   \<and> clean_js_text (cfg\<lparr>remove_empty_lines := b\<rparr>) s = clean_js_text cfg s
   \<and> clean_css_text (cfg\<lparr>remove_empty_lines := b\<rparr>) s = clean_css_text cfg s
   \<and> (remove_empty_lines cfg \<longrightarrow>
        splitlines (html_unblanked prettify cfg soup)
          = map strip (filter (\<lambda>line. strip line \<noteq> [])
              (splitlines (prettify (html_decommented cfg soup))))
        \<and> (\<forall>l\<in>set (splitlines (html_unblanked prettify cfg soup)). trimmed l \<and> strip l = l))
   \<and> (\<not> remove_empty_lines cfg \<longrightarrow>
        html_unblanked prettify cfg soup = prettify (html_decommented cfg soup))"
proof (intro conjI impI ballI)
  show "splitlines (js_unblanked cfg s)
     = map strip (filter (\<lambda>line. strip line \<noteq> []) (splitlines (js_decommented cfg s)))"
    by (simp add: js_unblanked_def splitlines_strip_lines)
  show "splitlines (css_unblanked cfg s)
     = map strip (filter (\<lambda>line. strip line \<noteq> []) (splitlines (css_optimized cfg s)))"
    by (simp add: css_unblanked_def splitlines_strip_lines)
  show "js_unblanked (cfg\<lparr>remove_empty_lines := b\<rparr>) s = js_unblanked cfg s"
    by (simp add: js_unblanked_def)
  show "css_unblanked (cfg\<lparr>remove_empty_lines := b\<rparr>) s = css_unblanked cfg s"
    by (simp add: css_unblanked_def)
  show "clean_js_text (cfg\<lparr>remove_empty_lines := b\<rparr>) s = clean_js_text cfg s"
    by (simp add: clean_js_text_def js_formatted_def js_minified_def js_unblanked_def)
  show "clean_css_text (cfg\<lparr>remove_empty_lines := b\<rparr>) s = clean_css_text cfg s"
    by (simp add: clean_css_text_def css_formatted_def css_unblanked_def)
next
  fix l assume "l \<in> set (splitlines (js_unblanked cfg s))"
  then have t: "trimmed l" unfolding js_unblanked_def by (rule strip_lines_trimmed)
  then show "trimmed l" "strip l = l" by (simp_all add: trimmed_strip)
next
  fix l assume "l \<in> set (splitlines (css_unblanked cfg s))"
  then have t: "trimmed l" unfolding css_unblanked_def by (rule strip_lines_trimmed)
  then show "trimmed l" "strip l = l" by (simp_all add: trimmed_strip)
next
  assume r: "remove_empty_lines cfg"
  then show "splitlines (html_unblanked prettify cfg soup)
          = map strip (filter (\<lambda>line. strip line \<noteq> [])
              (splitlines (prettify (html_decommented cfg soup))))"
    by (simp add: html_unblanked_def splitlines_strip_lines)
  fix l assume "l \<in> set (splitlines (html_unblanked prettify cfg soup))"
  with r have "l \<in> set (splitlines (strip_lines (prettify (html_decommented cfg soup))))"
    by (simp add: html_unblanked_def)
  then have t: "trimmed l" by (rule strip_lines_trimmed)
  then show "trimmed l" "strip l = l" by (simp_all add: trimmed_strip)
next
  assume "\<not> remove_empty_lines cfg"
  then show "html_unblanked prettify cfg soup = prettify (html_decommented cfg soup)"
    by (simp add: html_unblanked_def)
qed

lemma js_example_lines:
  "splitlines (py ''function f() {\<newline>return 1;\<newline>}'')
     = [py ''function f() {'', py ''return 1;'', py ''}'']"
  "splitlines (py ''<p>\<newline> a\<newline>\<newline></p>'') = [py ''<p>'', py '' a'', [], py ''</p>'']"
  "strip (py ''<p>'') = py ''<p>''" "strip (py '' a'') = py ''a''" "strip [] = []"
  "strip (py ''</p>'') = py ''</p>''"
  by (simp_all add: py_def is_linebreak_def strip_def isspace_def)

theorem blank_lines_unconditional_witness:
  "py ''return 1;'' \<in> set (splitlines (js_unblanked (DEFAULT_CONFIG\<lparr>remove_empty_lines := False\<rparr>) js_example))
   \<and> trimmed (py ''return 1;'')
   \<and> remove_empty_lines DEFAULT_CONFIG
   \<and> splitlines (html_unblanked (\<lambda>soup. py ''<p>\<newline> a\<newline>\<newline></p>'') DEFAULT_CONFIG soup_example)
       = [py ''<p>'', py ''a'', py ''</p>'']
   \<and> \<not> remove_empty_lines (DEFAULT_CONFIG\<lparr>remove_empty_lines := False\<rparr>)
   \<and> html_unblanked (\<lambda>soup. py ''<p>\<newline> a\<newline>\<newline></p>'')
         (DEFAULT_CONFIG\<lparr>remove_empty_lines := False\<rparr>) soup_example
       = py ''<p>\<newline> a\<newline>\<newline></p>''"
proof -
  let ?c = "DEFAULT_CONFIG\<lparr>remove_empty_lines := False\<rparr>"
  let ?P = "\<lambda>soup::node list. py ''<p>\<newline> a\<newline>\<newline></p>''"
  have r: "remove_empty_lines DEFAULT_CONFIG" "\<not> remove_empty_lines ?c"
    "remove_comments ?c"
    by (simp_all add: DEFAULT_CONFIG_def)
  have u: "js_unblanked ?c js_example = py ''function f() {\<newline>return 1;\<newline>}''"
    using r(3) by (simp add: js_unblanked_def js_decommented_def js_example_steps)
  have m: "py ''return 1;'' \<in> set (splitlines (js_unblanked ?c js_example))"
    unfolding u js_example_lines by simp
  note a = blank_lines_unconditional[of ?c js_example False ?P soup_example]
  note b = blank_lines_unconditional[of DEFAULT_CONFIG js_example False ?P soup_example]
  from a m have t: "trimmed (py ''return 1;'')" by blast
  from a r(2) have h2: "html_unblanked ?P ?c soup_example = py ''<p>\<newline> a\<newline>\<newline></p>''"
    by blast
  from b r(1) have "splitlines (html_unblanked ?P DEFAULT_CONFIG soup_example)
       = map strip (filter (\<lambda>line. strip line \<noteq> [])
              (splitlines (?P (html_decommented DEFAULT_CONFIG soup_example))))"
    by blast
  then have h1: "splitlines (html_unblanked ?P DEFAULT_CONFIG soup_example)
       = [py ''<p>'', py ''a'', py ''</p>'']"
    by (simp add: js_example_lines) (simp add: py_def)
  from m t r(1) h1 r(2) h2 show ?thesis by (intro conjI)
qed

section \<open>Running the stylesheet pipeline on its own output\<close>

lemma sbn_Nil [simp]: "sub_brace_newline [] = []"
  by (simp add: sub_brace_newline_def)



lemma blank_iff: "strip l = [] \<longleftrightarrow> (\<forall>c\<in>set l. isspace c)"
proof
  assume "strip l = []"
  then have a: "\<forall>c\<in>set (dropWhile isspace l). isspace c"
    by (simp add: strip_def dropWhile_eq_Nil_conv)
  have "dropWhile isspace l = []"
  proof (rule ccontr)
    assume n: "dropWhile isspace l \<noteq> []"
    then have "\<not> isspace (hd (dropWhile isspace l))" by (rule hd_dropWhile)
    moreover have "hd (dropWhile isspace l) \<in> set (dropWhile isspace l)" using n by simp
    ultimately show False using a by blast
  qed
  then show "\<forall>c\<in>set l. isspace c" by (simp add: dropWhile_eq_Nil_conv)
next
  assume "\<forall>c\<in>set l. isspace c"
  then show "strip l = []" by (auto simp: strip_def dest: set_dropWhileD)
qed







































lemma watermark_lines:
  "splitlines (WATERMARK @ t) = splitlines WATERMARK @ splitlines t"
  "length (splitlines WATERMARK) = 7"
  "nonblank_count (splitlines WATERMARK) = 6"
  "count_list WATERMARK 125 = 0"
  by (simp_all add: WATERMARK_def py_def is_linebreak_def nonblank_count_def blank_iff
      isspace_def)







lemma css_example_rerun:
  "length (splitlines (clean_css_text DEFAULT_CONFIG css_example)) = 8"
proof -
  have "clean_css_text DEFAULT_CONFIG css_example = WATERMARK @ py ''a{color:red;}  b{}''"
    by (simp add: clean_css_text_def add_watermark_def css_formatted_def css_unblanked_def
        css_optimized_def css_decommented_def DEFAULT_CONFIG_def css_example_steps)
  then show ?thesis
    by (simp add: watermark_lines(1,2)) (simp add: py_def is_linebreak_def)
qed

end
